theory Spec2Isabelle
  imports Complex_Main "HOL-Library.Multiset"
begin

section \<open>The persistence core of rdp: \<^verbatim>\<open>src/rdp/crud/crud.py\<close>\<close>

text \<open>
  The class \<^verbatim>\<open>Crud\<close> reaches one SQL store through short-lived SQLAlchemy sessions.
  The store is modelled as a record of three tables, each a list of rows in insertion
  order; every method of \<^verbatim>\<open>Crud\<close> becomes a function that takes the store and returns
  the store it leaves behind together with either the raised exception (\<open>Inl\<close>) or the
  returned value (\<open>Inr\<close>).

  The identifiers handed to the methods are Python integers (\<open>int\<close>); an optional
  argument whose default is \<^verbatim>\<open>None\<close> is an \<open>option\<close>. The measured value is a float
  that the core only stores and returns, so its type is left as the parameter \<open>'v\<close>.
\<close>

subsection \<open>Rows and the store\<close>

text \<open>
  Modelled from the spec: \<^verbatim>\<open>model.py\<close> (the declarations of \<^verbatim>\<open>ValueType\<close>,
  \<^verbatim>\<open>DeviceType\<close> and \<^verbatim>\<open>Value\<close>) is missing. The attributes are the ones
  \<^verbatim>\<open>crud.py\<close> reads and writes; the tables are
  \<^verbatim>\<open>value_type(id PK, name, unit)\<close>, \<^verbatim>\<open>device_type(id PK, name, location)\<close> and
  \<^verbatim>\<open>value(id PK autogen, time, value, value_type_id FK -> value_type.id)\<close>.
  A freshly constructed object has \<^verbatim>\<open>None\<close> in every attribute it was not given,
  so the string attributes are optional strings.
\<close>

record value_type =
  vt_id :: int
  type_name :: "string option"
  type_unit :: "string option"

record device_type =
  dt_id :: int
  name :: "string option"
  location :: "string option"

record 'v value_row =
  v_id :: int
  v_time :: int
  v_value :: 'v
  v_value_type_id :: int

record 'v db =
  value_types :: "value_type list"
  device_types :: "device_type list"
  vals :: "'v value_row list"

definition empty_db :: "'v db" where
  "empty_db = \<lparr>value_types = [], device_types = [], vals = []\<rparr>"

datatype error = NoResultFound | MultipleResultsFound | IntegrityError

subsection \<open>Python helpers\<close>

text \<open>Truthiness of an optional string: \<^verbatim>\<open>None\<close> and \<^verbatim>\<open>""\<close> are falsy.\<close>

definition truthy :: "string option \<Rightarrow> bool" where
  "truthy s = (case s of None \<Rightarrow> False | Some x \<Rightarrow> x \<noteq> [])"

text \<open>\<^verbatim>\<open>"%d" % i\<close>: the decimal digits of an integer, with a minus sign when negative.\<close>

definition digit_char :: "nat \<Rightarrow> char" where
  "digit_char d = ''0123456789'' ! d"

function dec_nat :: "nat \<Rightarrow> string" where
  "dec_nat n = (if n < 10 then [digit_char n] else dec_nat (n div 10) @ [digit_char (n mod 10)])"
  by pat_completeness auto
termination
  by (relation "measure (\<lambda>n. n)") auto

declare dec_nat.simps [simp del]

definition fmt_d :: "int \<Rightarrow> string" where
  "fmt_d i = (if i < 0 then CHR ''-'' # dec_nat (nat (- i)) else dec_nat (nat i))"

subsection \<open>Results of a query\<close>

text \<open>
  \<^verbatim>\<open>session.scalars(stmt).one()\<close> and \<^verbatim>\<open>.one_or_none()\<close> of SQLAlchemy: \<^verbatim>\<open>one\<close> raises
  \<^verbatim>\<open>NoResultFound\<close> on no row and \<^verbatim>\<open>MultipleResultsFound\<close> on more than one;
  \<^verbatim>\<open>one_or_none\<close> returns \<^verbatim>\<open>None\<close> on no row and raises \<^verbatim>\<open>MultipleResultsFound\<close> on
  more than one.
\<close>

fun one :: "'a list \<Rightarrow> error + 'a" where
  "one [] = Inl NoResultFound"
| "one [x] = Inr x"
| "one (x # y # zs) = Inl MultipleResultsFound"

fun one_or_none :: "'a list \<Rightarrow> error + 'a option" where
  "one_or_none [] = Inr None"
| "one_or_none [x] = Inr (Some x)"
| "one_or_none (x # y # zs) = Inl MultipleResultsFound"

text \<open>
  \<^verbatim>\<open>for type in session.scalars(stmt): db_type = type\<close>, started from
  \<^verbatim>\<open>db_type = None\<close>: the loop keeps the last row of the result.
\<close>

definition last_row :: "'a list \<Rightarrow> 'a option" where
  "last_row rows = foldl (\<lambda>acc r. Some r) None rows"

subsection \<open>Writing to the tables\<close>

text \<open>
  A commit flushes a new object as an INSERT and a loaded object as an UPDATE of the
  rows with its primary key. The INSERT raises \<^verbatim>\<open>IntegrityError\<close> when the primary key
  is already stored.
\<close>

definition insert_value_type :: "value_type list \<Rightarrow> value_type \<Rightarrow> error + value_type list" where
  "insert_value_type rows r =
     (if vt_id r \<in> set (map vt_id rows) then Inl IntegrityError else Inr (rows @ [r]))"

definition update_value_type :: "value_type list \<Rightarrow> value_type \<Rightarrow> value_type list" where
  "update_value_type rows r = map (\<lambda>x. if vt_id x = vt_id r then r else x) rows"

definition insert_device_type :: "device_type list \<Rightarrow> device_type \<Rightarrow> error + device_type list" where
  "insert_device_type rows r =
     (if dt_id r \<in> set (map dt_id rows) then Inl IntegrityError else Inr (rows @ [r]))"

definition update_device_type :: "device_type list \<Rightarrow> device_type \<Rightarrow> device_type list" where
  "update_device_type rows r = map (\<lambda>x. if dt_id x = dt_id r then r else x) rows"

text \<open>
  Modelled from the spec: the declaration of the table \<^verbatim>\<open>value\<close> is missing, so the
  integrity constraints that an INSERT into it must pass are a parameter of the
  functions below: a predicate on the store and the new row. The key of a new row is
  generated: it is larger than every stored key, and 1 in an empty table.
\<close>

type_synonym 'v value_constraint = "'v db \<Rightarrow> 'v value_row \<Rightarrow> bool"

definition next_value_id :: "'v value_row list \<Rightarrow> int" where
  "next_value_id rows = foldl max 0 (map v_id rows) + 1"

text \<open>
  Modelled from the spec: the constraints of
  \<^verbatim>\<open>value(id PK autogen, time, value, value_type_id FK -> value_type.id)\<close>, a table with
  no uniqueness constraint besides its key: the key is new and the referenced
  ValueType is stored.
\<close>

definition spec_value_constraint :: "'v value_constraint" where
  "spec_value_constraint d r =
     (v_id r \<notin> set (map v_id (vals d)) \<and> v_value_type_id r \<in> set (map vt_id (value_types d)))"

subsection \<open>The methods of \<^verbatim>\<open>Crud\<close>\<close>

text \<open>\<^verbatim>\<open>Crud.add_or_update_value_type\<close>, lines 19 to 52.\<close>

definition add_or_update_value_type ::
  "'v db \<Rightarrow> int \<Rightarrow> string option \<Rightarrow> string option \<Rightarrow> 'v db \<times> (error + value_type)" where
  "add_or_update_value_type d value_type_id value_type_name value_type_unit =
     (let found = last_row (filter (\<lambda>r. vt_id r = value_type_id) (value_types d));
          db_type = (case found of
                       None \<Rightarrow> \<lparr>vt_id = value_type_id, type_name = None, type_unit = None\<rparr>
                     | Some t \<Rightarrow> t);
          db_type = (if truthy value_type_name then db_type\<lparr>type_name := value_type_name\<rparr>
                     else if \<not> truthy (type_name db_type)
                       then db_type\<lparr>type_name := Some (''TYPE_'' @ fmt_d value_type_id)\<rparr>
                     else db_type);
          db_type = (if truthy value_type_unit then db_type\<lparr>type_unit := value_type_unit\<rparr>
                     else if \<not> truthy (type_unit db_type)
                       then db_type\<lparr>type_unit := Some (''UNIT_'' @ fmt_d value_type_id)\<rparr>
                     else db_type)
      in case found of
           None \<Rightarrow>
             (case insert_value_type (value_types d) db_type of
                Inl e \<Rightarrow> (d, Inl e)
              | Inr rows \<Rightarrow> (d\<lparr>value_types := rows\<rparr>, Inr db_type))
         | Some t \<Rightarrow> (d\<lparr>value_types := update_value_type (value_types d) db_type\<rparr>, Inr db_type))"

text \<open>
  \<^verbatim>\<open>Crud.add_value\<close>, lines 54 to 72. The call of \<^verbatim>\<open>add_or_update_value_type\<close> opens
  a session of its own and commits there; the Value is then inserted and committed in
  the session of \<^verbatim>\<open>add_value\<close>. When that commit raises \<^verbatim>\<open>IntegrityError\<close>, the
  session is closed without the Value; what the first commit wrote stays.
\<close>

definition add_value ::
  "'v value_constraint \<Rightarrow> 'v db \<Rightarrow> int \<Rightarrow> int \<Rightarrow> 'v \<Rightarrow> 'v db \<times> (error + unit)" where
  "add_value ok d value_time value_type value_value =
     (case add_or_update_value_type d value_type None None of
        (d1, Inl e) \<Rightarrow> (d1, Inl e)
      | (d1, Inr db_type) \<Rightarrow>
          (let db_value = \<lparr>v_id = next_value_id (vals d1), v_time = value_time,
                           v_value = value_value, v_value_type_id = vt_id db_type\<rparr>
           in if ok d1 db_value then (d1\<lparr>vals := vals d1 @ [db_value]\<rparr>, Inr ())
              else (d1, Inl IntegrityError)))"

text \<open>\<^verbatim>\<open>Crud.get_value_types\<close>, lines 74 to 82.\<close>

definition get_value_types :: "'v db \<Rightarrow> 'v db \<times> (error + value_type list)" where
  "get_value_types d = (d, Inr (value_types d))"

text \<open>\<^verbatim>\<open>Crud.get_value_type\<close>, lines 84 to 95.\<close>

definition get_value_type :: "'v db \<Rightarrow> int \<Rightarrow> 'v db \<times> (error + value_type)" where
  "get_value_type d value_type_id =
     (d, one (filter (\<lambda>r. vt_id r = value_type_id) (value_types d)))"

text \<open>
  \<^verbatim>\<open>Crud.get_values\<close>, lines 97 to 124. The statement is built up step by step: a join
  with \<^verbatim>\<open>value_type\<close> restricted to the given id, then the two bounds on the time, then
  the ordering by time. A join yields a Value once for every ValueType row it is joined
  with. SQL leaves the order of rows with equal time open; the model keeps them in the
  order of the table.
\<close>

definition join_value_type :: "'v db \<Rightarrow> int \<Rightarrow> 'v value_row list \<Rightarrow> 'v value_row list" where
  "join_value_type d tid rows =
     concat (map (\<lambda>v. map (\<lambda>t. v)
       (filter (\<lambda>t. vt_id t = v_value_type_id v \<and> vt_id t = tid) (value_types d))) rows)"

definition get_values ::
  "'v db \<Rightarrow> int option \<Rightarrow> int option \<Rightarrow> int option \<Rightarrow> 'v db \<times> (error + 'v value_row list)" where
  "get_values d value_type_id start end' =
     (let stmt = vals d;
          stmt = (case value_type_id of None \<Rightarrow> stmt | Some tid \<Rightarrow> join_value_type d tid stmt);
          stmt = (case start of None \<Rightarrow> stmt | Some s \<Rightarrow> filter (\<lambda>v. v_time v \<ge> s) stmt);
          stmt = (case end' of None \<Rightarrow> stmt | Some e \<Rightarrow> filter (\<lambda>v. v_time v \<le> e) stmt);
          stmt = sort_key v_time stmt
      in (d, Inr stmt))"

text \<open>\<^verbatim>\<open>Crud.get_device_type\<close>, lines 126 to 140.\<close>

definition get_device_type :: "'v db \<Rightarrow> int \<Rightarrow> 'v db \<times> (error + device_type)" where
  "get_device_type d device_type_id =
     (case one_or_none (filter (\<lambda>r. dt_id r = device_type_id) (device_types d)) of
        Inl e \<Rightarrow> (d, Inl e)
      | Inr None \<Rightarrow> (d, Inl NoResultFound)
      | Inr (Some device_type) \<Rightarrow> (d, Inr device_type))"

text \<open>
  \<^verbatim>\<open>Crud.add_or_update_device\<close>, lines 143 to 186. An \<^verbatim>\<open>IntegrityError\<close> of the commit
  is rolled back and raised again.
\<close>

definition add_or_update_device ::
  "'v db \<Rightarrow> int \<Rightarrow> string option \<Rightarrow> string option \<Rightarrow> 'v db \<times> (error + device_type)" where
  "add_or_update_device d device_type_id device_name device_location =
     (let found = last_row (filter (\<lambda>r. dt_id r = device_type_id) (device_types d));
          db_device_type = (case found of
                       None \<Rightarrow> \<lparr>dt_id = device_type_id, name = None, location = None\<rparr>
                     | Some t \<Rightarrow> t);
          db_device_type = (if truthy device_name then db_device_type\<lparr>name := device_name\<rparr>
                     else if \<not> truthy (name db_device_type)
                       then db_device_type\<lparr>name := Some (''DEVICE_TYPE_'' @ fmt_d device_type_id)\<rparr>
                     else db_device_type);
          db_device_type = (if truthy device_location
                       then db_device_type\<lparr>location := device_location\<rparr>
                     else if \<not> truthy (location db_device_type)
                       then db_device_type\<lparr>location := Some (''DEVICE_LOCATION_'' @ fmt_d device_type_id)\<rparr>
                     else db_device_type)
      in case found of
           None \<Rightarrow>
             (case insert_device_type (device_types d) db_device_type of
                Inl e \<Rightarrow> (d, Inl e)
              | Inr rows \<Rightarrow> (d\<lparr>device_types := rows\<rparr>, Inr db_device_type))
         | Some t \<Rightarrow>
             (d\<lparr>device_types := update_device_type (device_types d) db_device_type\<rparr>,
              Inr db_device_type))"

subsection \<open>The upsert rule in the words of the specification\<close>

text \<open>
  Section 4.1 of the specification: a supplied, non-empty argument overwrites the stored
  field; otherwise a stored field that is still empty gets the synthesized default;
  otherwise the stored field stays.
\<close>

definition spec_field :: "string option \<Rightarrow> string option \<Rightarrow> string \<Rightarrow> string option" where
  "spec_field supplied stored dflt =
     (if truthy supplied then supplied else if truthy stored then stored else Some dflt)"

text \<open>
  The ValueType that the specification expects after \<^verbatim>\<open>upsertValueType(k, n, u)\<close>: the
  stored record of that id (a new, empty one when none is stored) with both fields
  settled by the rule above.
\<close>

definition merged_value_type :: "'v db \<Rightarrow> int \<Rightarrow> string option \<Rightarrow> string option \<Rightarrow> value_type" where
  "merged_value_type d k n u =
     (let m = filter (\<lambda>r. vt_id r = k) (value_types d);
          old = (if m = [] then \<lparr>vt_id = k, type_name = None, type_unit = None\<rparr> else last m)
      in \<lparr>vt_id = k, type_name = spec_field n (type_name old) (''TYPE_'' @ fmt_d k),
           type_unit = spec_field u (type_unit old) (''UNIT_'' @ fmt_d k)\<rparr>)"


text \<open>The same for \<^verbatim>\<open>upsertDeviceType(k, n, l)\<close>.\<close>

definition merged_device_type :: "'v db \<Rightarrow> int \<Rightarrow> string option \<Rightarrow> string option \<Rightarrow> device_type" where
  "merged_device_type d k n l =
     (let m = filter (\<lambda>r. dt_id r = k) (device_types d);
          old = (if m = [] then \<lparr>dt_id = k, name = None, location = None\<rparr> else last m)
      in \<lparr>dt_id = k, name = spec_field n (name old) (''DEVICE_TYPE_'' @ fmt_d k),
           location = spec_field l (location old) (''DEVICE_LOCATION_'' @ fmt_d k)\<rparr>)"

subsection \<open>Sequences of calls\<close>

text \<open>
  The callers of the core (the routes of \<^verbatim>\<open>api/main.py\<close> and the sensor reader) call
  its methods one after the other. A call is a constructor, \<open>apply_op\<close> gives the store
  that the call leaves behind whether it returned or raised, and \<open>run\<close> performs a list
  of calls from left to right.
\<close>

datatype 'v op =
    Upsert_value_type int "string option" "string option"
  | Upsert_device_type int "string option" "string option"
  | Insert_value int int 'v
  | List_value_types
  | Get_value_type int
  | List_values "int option" "int option" "int option"
  | Get_device_type int

fun apply_op :: "'v value_constraint \<Rightarrow> 'v db \<Rightarrow> 'v op \<Rightarrow> 'v db" where
  "apply_op ok d (Upsert_value_type k n u) = fst (add_or_update_value_type d k n u)"
| "apply_op ok d (Upsert_device_type k n l) = fst (add_or_update_device d k n l)"
| "apply_op ok d (Insert_value t k v) = fst (add_value ok d t k v)"
| "apply_op ok d List_value_types = fst (get_value_types d)"
| "apply_op ok d (Get_value_type k) = fst (get_value_type d k)"
| "apply_op ok d (List_values k s e) = fst (get_values d k s e)"
| "apply_op ok d (Get_device_type k) = fst (get_device_type d k)"

definition run :: "'v value_constraint \<Rightarrow> 'v db \<Rightarrow> 'v op list \<Rightarrow> 'v db" where
  "run ok d ops = foldl (apply_op ok) d ops"


subsection \<open>The query in the words of the specification\<close>

text \<open>
  Section 4.3 of the specification: a Value is selected when it passes every supplied
  filter: its type id equals \<^verbatim>\<open>valueTypeId\<close>, its time is at least \<^verbatim>\<open>start\<close> and at
  most \<^verbatim>\<open>end\<close>.
\<close>

definition spec_selected :: "int option \<Rightarrow> int option \<Rightarrow> int option \<Rightarrow> 'v value_row \<Rightarrow> bool" where
  "spec_selected value_type_id start end' v =
     ((case value_type_id of None \<Rightarrow> True | Some k \<Rightarrow> v_value_type_id v = k) \<and>
      (case start of None \<Rightarrow> True | Some s \<Rightarrow> s \<le> v_time v) \<and>
      (case end' of None \<Rightarrow> True | Some e \<Rightarrow> v_time v \<le> e))"

text \<open>
  The keys of the layout: the ids of the stored ValueTypes are pairwise different
  (primary key) and every stored Value names a stored ValueType (foreign key).
\<close>

definition keys_ok :: "'v db \<Rightarrow> bool" where
  "keys_ok d =
     (distinct (map vt_id (value_types d)) \<and>
      list_all (\<lambda>v. v_value_type_id v \<in> set (map vt_id (value_types d))) (vals d))"

subsection \<open>An example of a constraint that rejects a row\<close>


section \<open>Properties\<close>

subsection \<open>Lists, truthiness and the loop over a result\<close>

lemma foldl_keep_last:
  "foldl (\<lambda>acc r. Some r) a rows = (if rows = [] then a else Some (last rows))"
  by (induction rows arbitrary: a) auto

lemma last_row_eq: "last_row rows = (if rows = [] then None else Some (last rows))"
  by (simp add: last_row_def foldl_keep_last)

lemma last_filter_id:
  assumes "filter P rows \<noteq> []" shows "P (last (filter P rows))"
proof -
  have "last (filter P rows) \<in> set (filter P rows)" using assms by (rule last_in_set)
  then show ?thesis by simp
qed

lemma filter_empty_not_stored:
  "filter (\<lambda>r. f r = k) rows = [] \<longleftrightarrow> k \<notin> set (map f rows)"
  by (auto simp: filter_empty_conv)

lemma add_or_update_value_type_new:
  assumes "k \<notin> set (map vt_id (value_types d))"
  shows "add_or_update_value_type d k n u =
     (d\<lparr>value_types := value_types d @ [merged_value_type d k n u]\<rparr>,
      Inr (merged_value_type d k n u))"
proof -
  have m: "filter (\<lambda>r. vt_id r = k) (value_types d) = []"
    using assms by (simp add: filter_empty_not_stored)
  show ?thesis
    using assms
    by (simp add: add_or_update_value_type_def merged_value_type_def m last_row_eq
        insert_value_type_def spec_field_def truthy_def Let_def)
qed

lemma add_or_update_value_type_old:
  assumes "k \<in> set (map vt_id (value_types d))"
  shows "add_or_update_value_type d k n u =
     (d\<lparr>value_types := map (\<lambda>x. if vt_id x = k then merged_value_type d k n u else x) (value_types d)\<rparr>,
      Inr (merged_value_type d k n u))"
proof -
  let ?m = "filter (\<lambda>r. vt_id r = k) (value_types d)"
  have m: "?m \<noteq> []" using assms by (simp add: filter_empty_not_stored)
  have k: "vt_id (last ?m) = k" using last_filter_id [OF m] .
  obtain a b c where t: "last ?m = \<lparr>vt_id = a, type_name = b, type_unit = c\<rparr>"
    by (cases "last ?m") auto
  with k have a: "a = k" by simp
  show ?thesis
    using m
    by (simp add: add_or_update_value_type_def merged_value_type_def last_row_eq
        update_value_type_def spec_field_def Let_def t a)
qed

lemma truthy_Some [simp]: "truthy (Some s) \<longleftrightarrow> s \<noteq> []"
  by (simp add: truthy_def)

lemma truthy_None [simp]: "\<not> truthy None"
  by (simp add: truthy_def)

lemma truthy_spec_field: "dflt \<noteq> [] \<Longrightarrow> truthy (spec_field n s dflt)"
  by (simp add: spec_field_def)

lemma spec_field_keep: "truthy s \<Longrightarrow> spec_field None s dflt = s"
  by (simp add: spec_field_def)

lemma spec_field_supplied: "x \<noteq> [] \<Longrightarrow> spec_field (Some x) s dflt = Some x"
  by (simp add: spec_field_def)

lemma merged_value_type_sel:
  "vt_id (merged_value_type d k n u) = k"
  "truthy (type_name (merged_value_type d k n u))"
  "truthy (type_unit (merged_value_type d k n u))"
  by (simp_all add: merged_value_type_def Let_def truthy_spec_field)

lemma filter_key_map_replace:
  assumes "f obj = k"
  shows "filter (\<lambda>r. f r = k) (map (\<lambda>x. if f x = k then obj else x) rows)
     = map (\<lambda>x. obj) (filter (\<lambda>r. f r = k) rows)"
  using assms by (induction rows) auto

lemma filter_other_map_replace:
  assumes "f obj = k"
  shows "filter (\<lambda>r. f r \<noteq> k) (map (\<lambda>x. if f x = k then obj else x) rows)
     = filter (\<lambda>r. f r \<noteq> k) rows"
  using assms by (induction rows) auto

lemma last_map_const: "xs \<noteq> [] \<Longrightarrow> last (map (\<lambda>x. c) xs) = c"
  by (simp add: last_map)

text \<open>What the table holds after the upsert.\<close>

lemma value_types_after_upsert:
  "value_types (fst (add_or_update_value_type d k n u)) =
     (if k \<in> set (map vt_id (value_types d))
      then map (\<lambda>x. if vt_id x = k then merged_value_type d k n u else x) (value_types d)
      else value_types d @ [merged_value_type d k n u])"
  by (simp add: add_or_update_value_type_new add_or_update_value_type_old)

lemma upsert_result: "snd (add_or_update_value_type d k n u) = Inr (merged_value_type d k n u)"
  by (cases "k \<in> set (map vt_id (value_types d))")
     (simp_all add: add_or_update_value_type_new add_or_update_value_type_old)

lemma filter_after_upsert:
  "filter (\<lambda>r. vt_id r = k) (value_types (fst (add_or_update_value_type d k n u))) =
     (if k \<in> set (map vt_id (value_types d))
      then map (\<lambda>x. merged_value_type d k n u) (filter (\<lambda>r. vt_id r = k) (value_types d))
      else [merged_value_type d k n u])"
proof (cases "k \<in> set (map vt_id (value_types d))")
  case True
  then show ?thesis
    by (simp add: value_types_after_upsert filter_key_map_replace merged_value_type_sel del: set_map)
next
  case False
  then have "filter (\<lambda>r. vt_id r = k) (value_types d) = []"
    by (simp add: filter_empty_not_stored)
  with False show ?thesis
    by (simp add: value_types_after_upsert merged_value_type_sel del: set_map)
qed

lemma stored_after_upsert:
  "k \<in> set (map vt_id (value_types (fst (add_or_update_value_type d k n u))))"
proof -
  have "filter (\<lambda>r. vt_id r = k) (value_types (fst (add_or_update_value_type d k n u))) \<noteq> []"
    by (simp add: filter_after_upsert filter_empty_not_stored del: set_map)
  then show ?thesis by (simp only: filter_empty_not_stored not_not)
qed

lemma last_stored_after_upsert:
  "last (filter (\<lambda>r. vt_id r = k) (value_types (fst (add_or_update_value_type d k n u))))
     = merged_value_type d k n u"
proof (cases "k \<in> set (map vt_id (value_types d))")
  case True
  then have "filter (\<lambda>r. vt_id r = k) (value_types d) \<noteq> []"
    by (simp add: filter_empty_not_stored)
  with True show ?thesis
    by (simp add: filter_after_upsert last_map_const del: set_map)
next
  case False
  then show ?thesis by (simp add: filter_after_upsert del: set_map)
qed

lemma merged_after_upsert:
  "merged_value_type (fst (add_or_update_value_type d k n u)) k n' u' =
     \<lparr>vt_id = k,
      type_name = spec_field n' (type_name (merged_value_type d k n u)) (''TYPE_'' @ fmt_d k),
      type_unit = spec_field u' (type_unit (merged_value_type d k n u)) (''UNIT_'' @ fmt_d k)\<rparr>"
proof -
  let ?d1 = "fst (add_or_update_value_type d k n u)"
  have ne: "filter (\<lambda>r. vt_id r = k) (value_types ?d1) \<noteq> []"
    using stored_after_upsert [of k d n u] by (simp add: filter_empty_not_stored del: set_map)
  show ?thesis
    unfolding merged_value_type_def [of ?d1] Let_def
    using ne by (simp add: last_stored_after_upsert)
qed

lemma merged_again:
  "merged_value_type (fst (add_or_update_value_type d k n u)) k None None = merged_value_type d k n u"
proof -
  obtain a b c where t: "merged_value_type d k n u = \<lparr>vt_id = a, type_name = b, type_unit = c\<rparr>"
    by (cases "merged_value_type d k n u") auto
  have "a = k" "truthy b" "truthy c"
    using merged_value_type_sel [of d k n u] by (simp_all add: t)
  then show ?thesis
    by (simp add: merged_after_upsert t spec_field_keep)
qed

lemma map_replace_idem:
  "map (\<lambda>x. if f x = k then obj else x) (map (\<lambda>x. if f x = k then obj else x) rows)
     = map (\<lambda>x. if f x = k then obj else x) rows"
  by (induction rows) auto

lemma map_replace_fresh:
  "k \<notin> set (map f rows) \<Longrightarrow> map (\<lambda>x. if f x = k then obj else x) rows = rows"
  by (induction rows) auto

lemma upsert_again_store:
  "fst (add_or_update_value_type (fst (add_or_update_value_type d k n u)) k None None)
     = fst (add_or_update_value_type d k n u)"
proof -
  let ?d1 = "fst (add_or_update_value_type d k n u)"
  let ?obj = "merged_value_type d k n u"
  have st: "k \<in> set (map vt_id (value_types ?d1))" by (rule stored_after_upsert)
  have id: "vt_id ?obj = k" by (rule merged_value_type_sel)
  have "map (\<lambda>x. if vt_id x = k then ?obj else x) (value_types ?d1) = value_types ?d1"
  proof (cases "k \<in> set (map vt_id (value_types d))")
    case True
    then show ?thesis
      by (simp add: value_types_after_upsert map_replace_idem del: set_map)
  next
    case False
    then show ?thesis
      by (simp add: value_types_after_upsert map_replace_fresh id del: set_map)
  qed
  then have "?d1\<lparr>value_types := map (\<lambda>x. if vt_id x = k then ?obj else x) (value_types ?d1)\<rparr> = ?d1"
    by simp
  moreover have "fst (add_or_update_value_type ?d1 k None None) =
      ?d1\<lparr>value_types := map (\<lambda>x. if vt_id x = k then ?obj else x) (value_types ?d1)\<rparr>"
    by (simp only: add_or_update_value_type_old [OF st] merged_again fst_conv)
  ultimately show ?thesis by simp
qed

text \<open>The decimal rendering at the ids used in the examples below.\<close>

lemma fmt_d_42: "fmt_d 42 = ''42''"
  by code_simp

lemma fmt_d_1: "fmt_d 1 = ''1''"
  by code_simp

lemma fmt_d_7: "fmt_d 7 = ''7''"
  by code_simp

subsection \<open>Upserts of a ValueType\<close>

text \<open>
  Claim C1. Calling \<^verbatim>\<open>add_or_update_value_type(k)\<close> twice with neither name nor unit:
  the second call leaves the store as the first call left it and returns the same
  record; and when no ValueType with id \<open>k\<close> was stored before the first call, the
  store then holds exactly one record with id \<open>k\<close>, named \<^verbatim>\<open>TYPE_<k>\<close> with unit
  \<^verbatim>\<open>UNIT_<k>\<close>.
\<close>

theorem upsert_value_type_twice_defaults:
  "case add_or_update_value_type d k None None of (d1, r1) \<Rightarrow>
     (case add_or_update_value_type d1 k None None of (d2, r2) \<Rightarrow>
        d2 = d1 \<and> r2 = r1 \<and>
        (k \<notin> set (map vt_id (value_types d)) \<longrightarrow>
           r1 = Inr \<lparr>vt_id = k, type_name = Some (''TYPE_'' @ fmt_d k),
                      type_unit = Some (''UNIT_'' @ fmt_d k)\<rparr> \<and>
           filter (\<lambda>r. vt_id r = k) (value_types d2) =
             [\<lparr>vt_id = k, type_name = Some (''TYPE_'' @ fmt_d k),
               type_unit = Some (''UNIT_'' @ fmt_d k)\<rparr>]))"
proof -
  let ?c1 = "add_or_update_value_type d k None None"
  let ?c2 = "add_or_update_value_type (fst ?c1) k None None"
  have store: "fst ?c2 = fst ?c1" by (rule upsert_again_store)
  have res: "snd ?c2 = snd ?c1" by (simp only: upsert_result merged_again)
  have fresh: "snd ?c1 = Inr \<lparr>vt_id = k, type_name = Some (''TYPE_'' @ fmt_d k),
                      type_unit = Some (''UNIT_'' @ fmt_d k)\<rparr> \<and>
      filter (\<lambda>r. vt_id r = k) (value_types (fst ?c1)) =
             [\<lparr>vt_id = k, type_name = Some (''TYPE_'' @ fmt_d k),
               type_unit = Some (''UNIT_'' @ fmt_d k)\<rparr>]"
    if "k \<notin> set (map vt_id (value_types d))"
  proof -
    from that have "filter (\<lambda>r. vt_id r = k) (value_types d) = []"
      by (simp add: filter_empty_not_stored)
    then have "merged_value_type d k None None = \<lparr>vt_id = k, type_name = Some (''TYPE_'' @ fmt_d k),
                      type_unit = Some (''UNIT_'' @ fmt_d k)\<rparr>"
      by (simp add: merged_value_type_def spec_field_def)
    with that show ?thesis
      by (simp add: upsert_result filter_after_upsert del: set_map)
  qed
  show ?thesis
    using store res fresh by (simp add: case_prod_unfold)
qed

text \<open>An instance: the id 42 on the empty store.\<close>

theorem upsert_value_type_twice_defaults_witness:
  "(42::int) \<notin> set (map vt_id (value_types (empty_db :: real db))) \<and>
   fst (add_or_update_value_type (fst (add_or_update_value_type (empty_db :: real db) 42 None None)) 42 None None)
     = fst (add_or_update_value_type (empty_db :: real db) 42 None None) \<and>
   snd (add_or_update_value_type (empty_db :: real db) 42 None None)
     = Inr \<lparr>vt_id = 42, type_name = Some ''TYPE_42'', type_unit = Some ''UNIT_42''\<rparr> \<and>
   filter (\<lambda>r. vt_id r = 42)
     (value_types (fst (add_or_update_value_type (fst (add_or_update_value_type (empty_db :: real db) 42 None None)) 42 None None)))
     = [\<lparr>vt_id = 42, type_name = Some ''TYPE_42'', type_unit = Some ''UNIT_42''\<rparr>]"
proof -
  have fresh: "(42::int) \<notin> set (map vt_id (value_types (empty_db :: real db)))"
    by (simp add: empty_db_def)
  show ?thesis
    using upsert_value_type_twice_defaults [where d = "empty_db :: real db" and k = 42] fresh
    by (auto simp add: case_prod_unfold fmt_d_42)
qed

text \<open>
  Claim C2. For non-empty \<open>X\<close> and \<open>Y\<close>, the upsert with the name \<open>X\<close> followed by the
  upsert with the unit \<open>Y\<close> leaves a record with name \<open>X\<close> and unit \<open>Y\<close> as the only
  content stored under the id. In general every upsert returns, and stores under the
  id, the record that the rule of the specification gives: a supplied non-empty
  argument overwrites, an absent one keeps a non-empty stored field, and only an empty
  stored field gets the default.
\<close>

theorem partial_updates_keep_fields:
  "(X \<noteq> [] \<and> Y \<noteq> [] \<longrightarrow>
     (case add_or_update_value_type d k (Some X) None of (d1, r1) \<Rightarrow>
        (case add_or_update_value_type d1 k None (Some Y) of (d2, r2) \<Rightarrow>
           r2 = Inr \<lparr>vt_id = k, type_name = Some X, type_unit = Some Y\<rparr> \<and>
           set (filter (\<lambda>r. vt_id r = k) (value_types d2)) =
             {\<lparr>vt_id = k, type_name = Some X, type_unit = Some Y\<rparr>}))) \<and>
   snd (add_or_update_value_type d k n u) = Inr (merged_value_type d k n u) \<and>
   set (filter (\<lambda>r. vt_id r = k) (value_types (fst (add_or_update_value_type d k n u)))) =
     {merged_value_type d k n u}"
proof -
  have stored: "set (filter (\<lambda>r. vt_id r = k) (value_types (fst (add_or_update_value_type d k n u)))) =
     {merged_value_type d k n u}" for d :: "'a db" and n u
  proof (cases "k \<in> set (map vt_id (value_types d))")
    case True
    then have "filter (\<lambda>r. vt_id r = k) (value_types d) \<noteq> []"
      by (simp add: filter_empty_not_stored)
    then have "set (filter (\<lambda>r. vt_id r = k) (value_types d)) \<noteq> {}"
      by (simp del: set_filter)
    then have "(\<lambda>x. merged_value_type d k n u) ` set (filter (\<lambda>r. vt_id r = k) (value_types d))
        = {merged_value_type d k n u}"
      by (simp only: image_constant_conv if_False)
    with True show ?thesis
      by (simp only: filter_after_upsert if_True set_map)
  next
    case False
    then show ?thesis by (simp add: filter_after_upsert del: set_map)
  qed
  have two: "merged_value_type (fst (add_or_update_value_type d k (Some X) None)) k None (Some Y)
      = \<lparr>vt_id = k, type_name = Some X, type_unit = Some Y\<rparr>" if "X \<noteq> []" "Y \<noteq> []"
  proof -
    have "type_name (merged_value_type d k (Some X) None) = Some X"
      using that by (simp add: merged_value_type_def Let_def spec_field_supplied)
    with that show ?thesis
      by (simp add: merged_after_upsert spec_field_keep spec_field_supplied)
  qed
  show ?thesis
    using two stored [of d n u] stored [of "fst (add_or_update_value_type d k (Some X) None)" None "Some Y"]
    by (simp add: case_prod_unfold upsert_result)
qed

text \<open>An instance: the id 7 on the empty store, named ``Temp'' and then given the unit ``C''.\<close>

theorem partial_updates_keep_fields_witness:
  "''Temp'' \<noteq> [] \<and> ''C'' \<noteq> [] \<and>
   snd (add_or_update_value_type (fst (add_or_update_value_type (empty_db :: real db) 7 (Some ''Temp'') None)) 7 None (Some ''C''))
     = Inr \<lparr>vt_id = 7, type_name = Some ''Temp'', type_unit = Some ''C''\<rparr> \<and>
   set (filter (\<lambda>r. vt_id r = 7)
      (value_types (fst (add_or_update_value_type (fst (add_or_update_value_type (empty_db :: real db) 7 (Some ''Temp'') None)) 7 None (Some ''C'')))))
     = {\<lparr>vt_id = 7, type_name = Some ''Temp'', type_unit = Some ''C''\<rparr>}"
  using partial_updates_keep_fields [where X = "''Temp''" and Y = "''C''" and d = "empty_db :: real db"
      and k = 7 and n = None and u = None]
  by (simp add: case_prod_unfold)

subsection \<open>Lookup by id\<close>

text \<open>
  Claim C6. \<^verbatim>\<open>get_value_type(k)\<close> raises \<^verbatim>\<open>NoResultFound\<close> when no ValueType with id
  \<open>k\<close> is stored, returns the record when exactly one is stored, and raises the
  distinct \<^verbatim>\<open>MultipleResultsFound\<close> when more than one is stored. The store is left as
  it was.
\<close>

theorem get_value_type_signals:
  "get_value_type d k =
     (d, case filter (\<lambda>r. vt_id r = k) (value_types d) of
           [] \<Rightarrow> Inl NoResultFound
         | [r] \<Rightarrow> Inr r
         | r # r' # rs \<Rightarrow> Inl MultipleResultsFound)"
  by (cases "filter (\<lambda>r. vt_id r = k) (value_types d)" rule: one.cases)
     (simp_all add: get_value_type_def)

text \<open>
  Claim C7, as amended. \<^verbatim>\<open>get_device_type(k)\<close> raises \<^verbatim>\<open>NoResultFound\<close> when no
  DeviceType with id \<open>k\<close> is stored and returns the record when exactly one is stored;
  when more than one is stored, \<^verbatim>\<open>one_or_none\<close> raises \<^verbatim>\<open>MultipleResultsFound\<close>, which
  is not the not-found signal.
\<close>

theorem get_device_type_signals:
  "get_device_type d k =
     (d, case filter (\<lambda>r. dt_id r = k) (device_types d) of
           [] \<Rightarrow> Inl NoResultFound
         | [r] \<Rightarrow> Inr r
         | r # r' # rs \<Rightarrow> Inl MultipleResultsFound)"
  by (cases "filter (\<lambda>r. dt_id r = k) (device_types d)" rule: one_or_none.cases)
     (simp_all add: get_device_type_def)

text \<open>
  The claim as stated fails on a table with two DeviceType rows of id 7: the lookup
  signals \<^verbatim>\<open>MultipleResultsFound\<close>, not \<^verbatim>\<open>NoResultFound\<close>.
\<close>

theorem get_device_type_multiple_counterexample:
  "snd (get_device_type
      \<lparr>value_types = [],
       device_types = [\<lparr>dt_id = 7, name = Some ''pump'', location = Some ''hall''\<rparr>,
                       \<lparr>dt_id = 7, name = Some ''fan'', location = Some ''roof''\<rparr>],
       vals = ([] :: real value_row list)\<rparr> 7) = Inl MultipleResultsFound \<and>
   snd (get_device_type
      \<lparr>value_types = [],
       device_types = [\<lparr>dt_id = 7, name = Some ''pump'', location = Some ''hall''\<rparr>,
                       \<lparr>dt_id = 7, name = Some ''fan'', location = Some ''roof''\<rparr>],
       vals = ([] :: real value_row list)\<rparr> 7) \<noteq> Inl NoResultFound"
  by (simp add: get_device_type_def)

subsection \<open>Inserting a measurement\<close>

lemma upsert_frame:
  "vals (fst (add_or_update_value_type d k n u)) = vals d"
  "device_types (fst (add_or_update_value_type d k n u)) = device_types d"
  by (cases "k \<in> set (map vt_id (value_types d))";
      simp add: add_or_update_value_type_new add_or_update_value_type_old)+

lemma upsert_pair:
  "add_or_update_value_type d k n u =
     (fst (add_or_update_value_type d k n u), Inr (merged_value_type d k n u))"
  by (simp add: prod_eq_iff upsert_result)

lemma add_value_char:
  "add_value ok d t k v =
     (let d1 = fst (add_or_update_value_type d k None None);
          row = \<lparr>v_id = next_value_id (vals d), v_time = t, v_value = v, v_value_type_id = k\<rparr>
      in if ok d1 row then (d1\<lparr>vals := vals d @ [row]\<rparr>, Inr ()) else (d1, Inl IntegrityError))"
  unfolding add_value_def
  by (subst upsert_pair) (simp add: Let_def upsert_frame merged_value_type_sel)

lemma foldl_max_ge: "(a::int) \<le> foldl max a xs"
  by (induction xs arbitrary: a) (auto intro: order_trans [OF max.cobounded1])

lemma foldl_max_upper: "x \<in> set xs \<Longrightarrow> (x::int) \<le> foldl max a xs"
proof (induction xs arbitrary: a)
  case Nil
  then show ?case by simp
next
  case (Cons y ys)
  show ?case
  proof (cases "x = y")
    case True
    have "y \<le> max a y" by simp
    also have "\<dots> \<le> foldl max (max a y) ys" by (rule foldl_max_ge)
    finally show ?thesis using True by simp
  next
    case False
    with Cons.prems have "x \<in> set ys" by simp
    then show ?thesis by (simp add: Cons.IH)
  qed
qed

lemma next_value_id_fresh: "next_value_id rows \<notin> set (map v_id rows)"
proof
  assume "next_value_id rows \<in> set (map v_id rows)"
  then have "next_value_id rows \<le> foldl max 0 (map v_id rows)" by (rule foldl_max_upper)
  then show False by (simp add: next_value_id_def)
qed

lemma next_value_id_snoc:
  "v_id r = next_value_id rows \<Longrightarrow> next_value_id (rows @ [r]) = next_value_id rows + 1"
proof -
  assume r: "v_id r = next_value_id rows"
  have "(0::int) \<le> foldl max 0 (map v_id rows)" by (rule foldl_max_ge)
  then show ?thesis using r by (simp add: next_value_id_def max_def)
qed

lemma spec_constraint_after_upsert:
  "spec_value_constraint (fst (add_or_update_value_type d k n u))
     \<lparr>v_id = next_value_id (vals d), v_time = t, v_value = v, v_value_type_id = k\<rparr>"
  using next_value_id_fresh [of "vals d"] stored_after_upsert [of k d n u]
  by (simp add: spec_value_constraint_def upsert_frame del: set_map)

lemma add_value_spec:
  "add_value spec_value_constraint d t k v =
     ((fst (add_or_update_value_type d k None None))
        \<lparr>vals := vals d @ [\<lparr>v_id = next_value_id (vals d), v_time = t, v_value = v,
                             v_value_type_id = k\<rparr>]\<rparr>, Inr ())"
  by (simp add: add_value_char Let_def spec_constraint_after_upsert)

text \<open>
  Claim C3. When no ValueType with id \<open>k\<close> is stored, \<^verbatim>\<open>add_value(t, k, v)\<close> on the
  tables of the specification returns without an exception, appends the ValueType
  \<open>k\<close> named \<^verbatim>\<open>TYPE_<k>\<close> with unit \<^verbatim>\<open>UNIT_<k>\<close>, and appends a Value with time \<open>t\<close>,
  value \<open>v\<close> and type id \<open>k\<close> under a new key. Nothing else changes.
\<close>

theorem add_value_creates_value_type:
  assumes "k \<notin> set (map vt_id (value_types d))"
  shows "add_value spec_value_constraint d t k v =
     (d\<lparr>value_types := value_types d @
           [\<lparr>vt_id = k, type_name = Some (''TYPE_'' @ fmt_d k),
             type_unit = Some (''UNIT_'' @ fmt_d k)\<rparr>],
        vals := vals d @
           [\<lparr>v_id = next_value_id (vals d), v_time = t, v_value = v, v_value_type_id = k\<rparr>]\<rparr>,
      Inr ())"
proof -
  from assms have "filter (\<lambda>r. vt_id r = k) (value_types d) = []"
    by (simp add: filter_empty_not_stored)
  then have "merged_value_type d k None None =
      \<lparr>vt_id = k, type_name = Some (''TYPE_'' @ fmt_d k), type_unit = Some (''UNIT_'' @ fmt_d k)\<rparr>"
    by (simp add: merged_value_type_def spec_field_def)
  then show ?thesis
    by (simp add: add_value_spec add_or_update_value_type_new [OF assms])
qed

text \<open>An instance: the first measurement of type 42 on the empty store.\<close>

theorem add_value_creates_value_type_witness:
  "(42::int) \<notin> set (map vt_id (value_types (empty_db :: real db))) \<and>
   add_value spec_value_constraint (empty_db :: real db) 1699228800 42 3.14 =
     (\<lparr>value_types = [\<lparr>vt_id = 42, type_name = Some ''TYPE_42'', type_unit = Some ''UNIT_42''\<rparr>],
       device_types = [],
       vals = [\<lparr>v_id = 1, v_time = 1699228800, v_value = 3.14, v_value_type_id = 42\<rparr>]\<rparr>,
      Inr ())"
proof -
  have fresh: "(42::int) \<notin> set (map vt_id (value_types (empty_db :: real db)))"
    by (simp add: empty_db_def)
  show ?thesis
    using add_value_creates_value_type [OF fresh, where t = 1699228800 and v = "3.14"] fresh
    by (simp add: empty_db_def next_value_id_def fmt_d_42)
qed

text \<open>
  Claim C8. On the tables of the specification, which put no uniqueness constraint on
  a Value besides its generated key, two successive calls of \<^verbatim>\<open>add_value\<close> with the same
  time, type and value both return without an exception, and the table then ends in two
  rows with that time, type and value, which differ in their keys.
\<close>

theorem add_value_twice_both_persist:
  "case add_value spec_value_constraint d t k v of (d1, r1) \<Rightarrow>
     (case add_value spec_value_constraint d1 t k v of (d2, r2) \<Rightarrow>
        r1 = Inr () \<and> r2 = Inr () \<and>
        vals d2 = vals d @
          [\<lparr>v_id = next_value_id (vals d), v_time = t, v_value = v, v_value_type_id = k\<rparr>,
           \<lparr>v_id = next_value_id (vals d) + 1, v_time = t, v_value = v, v_value_type_id = k\<rparr>])"
  by (simp add: add_value_spec next_value_id_snoc)

text \<open>An instance: the same measurement twice on the empty store.\<close>

theorem add_value_twice_both_persist_witness:
  "snd (add_value spec_value_constraint (empty_db :: real db) 100 1 97) = Inr () \<and>
   add_value spec_value_constraint (fst (add_value spec_value_constraint (empty_db :: real db) 100 1 97)) 100 1 97 =
     (\<lparr>value_types = [\<lparr>vt_id = 1, type_name = Some ''TYPE_1'', type_unit = Some ''UNIT_1''\<rparr>],
       device_types = [],
       vals = [\<lparr>v_id = 1, v_time = 100, v_value = 97, v_value_type_id = 1\<rparr>,
               \<lparr>v_id = 2, v_time = 100, v_value = 97, v_value_type_id = 1\<rparr>]\<rparr>,
      Inr ())"
  using add_value_twice_both_persist [where d = "empty_db :: real db" and t = 100 and k = 1 and v = 97]
  by (simp add: add_value_spec next_value_id_def empty_db_def add_or_update_value_type_new add_or_update_value_type_old
      merged_value_type_def spec_field_def fmt_d_1)




subsection \<open>Upserts of a DeviceType and the frame of an upsert\<close>

lemma add_or_update_device_new:
  assumes "k \<notin> set (map dt_id (device_types d))"
  shows "add_or_update_device d k n l =
     (d\<lparr>device_types := device_types d @ [merged_device_type d k n l]\<rparr>,
      Inr (merged_device_type d k n l))"
proof -
  have m: "filter (\<lambda>r. dt_id r = k) (device_types d) = []"
    using assms by (simp add: filter_empty_not_stored)
  show ?thesis
    using assms
    by (simp add: add_or_update_device_def merged_device_type_def m last_row_eq
        insert_device_type_def spec_field_def truthy_def Let_def)
qed

lemma add_or_update_device_old:
  assumes "k \<in> set (map dt_id (device_types d))"
  shows "add_or_update_device d k n l =
     (d\<lparr>device_types := map (\<lambda>x. if dt_id x = k then merged_device_type d k n l else x) (device_types d)\<rparr>,
      Inr (merged_device_type d k n l))"
proof -
  let ?m = "filter (\<lambda>r. dt_id r = k) (device_types d)"
  have m: "?m \<noteq> []" using assms by (simp add: filter_empty_not_stored)
  have k: "dt_id (last ?m) = k" using last_filter_id [OF m] .
  obtain a b c where t: "last ?m = \<lparr>dt_id = a, name = b, location = c\<rparr>"
    by (cases "last ?m") auto
  with k have a: "a = k" by simp
  show ?thesis
    using m
    by (simp add: add_or_update_device_def merged_device_type_def last_row_eq
        update_device_type_def spec_field_def Let_def t a)
qed

lemma merged_device_type_sel:
  "dt_id (merged_device_type d k n l) = k"
  "truthy (name (merged_device_type d k n l))"
  "truthy (location (merged_device_type d k n l))"
  by (simp_all add: merged_device_type_def Let_def truthy_spec_field)

lemma device_types_after_upsert:
  "device_types (fst (add_or_update_device d k n l)) =
     (if k \<in> set (map dt_id (device_types d))
      then map (\<lambda>x. if dt_id x = k then merged_device_type d k n l else x) (device_types d)
      else device_types d @ [merged_device_type d k n l])"
  by (simp add: add_or_update_device_new add_or_update_device_old)

lemma device_upsert_frame:
  "vals (fst (add_or_update_device d k n l)) = vals d"
  "value_types (fst (add_or_update_device d k n l)) = value_types d"
  by (cases "k \<in> set (map dt_id (device_types d))";
      simp add: add_or_update_device_new add_or_update_device_old)+

text \<open>
  Claim C10. An upsert of the ValueType \<open>k\<close> leaves the ValueType rows of every other
  id as they were, in their order, and changes neither the DeviceTypes nor the Values;
  an upsert of the DeviceType \<open>k\<close> leaves the DeviceType rows of every other id as they
  were and changes neither the ValueTypes nor the Values.
\<close>

theorem upserts_are_frame_local:
  "filter (\<lambda>r. vt_id r \<noteq> k) (value_types (fst (add_or_update_value_type d k n u)))
     = filter (\<lambda>r. vt_id r \<noteq> k) (value_types d) \<and>
   device_types (fst (add_or_update_value_type d k n u)) = device_types d \<and>
   vals (fst (add_or_update_value_type d k n u)) = vals d \<and>
   filter (\<lambda>r. dt_id r \<noteq> k) (device_types (fst (add_or_update_device d k n l)))
     = filter (\<lambda>r. dt_id r \<noteq> k) (device_types d) \<and>
   value_types (fst (add_or_update_device d k n l)) = value_types d \<and>
   vals (fst (add_or_update_device d k n l)) = vals d"
proof -
  have "filter (\<lambda>r. vt_id r \<noteq> k) (value_types (fst (add_or_update_value_type d k n u)))
     = filter (\<lambda>r. vt_id r \<noteq> k) (value_types d)"
    by (simp add: value_types_after_upsert filter_other_map_replace merged_value_type_sel del: set_map)
  moreover have "filter (\<lambda>r. dt_id r \<noteq> k) (device_types (fst (add_or_update_device d k n l)))
     = filter (\<lambda>r. dt_id r \<noteq> k) (device_types d)"
    by (simp add: device_types_after_upsert filter_other_map_replace merged_device_type_sel del: set_map)
  ultimately show ?thesis
    by (simp add: upsert_frame device_upsert_frame)
qed

text \<open>An instance: renaming ValueType 1 in a store with two ValueTypes.\<close>

theorem upserts_are_frame_local_witness:
  "value_types (fst (add_or_update_value_type
      \<lparr>value_types = [\<lparr>vt_id = 1, type_name = Some ''Temp'', type_unit = Some ''C''\<rparr>,
                      \<lparr>vt_id = 2, type_name = Some ''Hum'', type_unit = Some ''pct''\<rparr>],
       device_types = [\<lparr>dt_id = 1, name = Some ''pump'', location = Some ''hall''\<rparr>],
       vals = [\<lparr>v_id = 1, v_time = 100, v_value = 97 :: real, v_value_type_id = 1\<rparr>]\<rparr>
      1 (Some ''T'') None))
     = [\<lparr>vt_id = 1, type_name = Some ''T'', type_unit = Some ''C''\<rparr>,
        \<lparr>vt_id = 2, type_name = Some ''Hum'', type_unit = Some ''pct''\<rparr>] \<and>
   device_types (fst (add_or_update_value_type
      \<lparr>value_types = [\<lparr>vt_id = 1, type_name = Some ''Temp'', type_unit = Some ''C''\<rparr>,
                      \<lparr>vt_id = 2, type_name = Some ''Hum'', type_unit = Some ''pct''\<rparr>],
       device_types = [\<lparr>dt_id = 1, name = Some ''pump'', location = Some ''hall''\<rparr>],
       vals = [\<lparr>v_id = 1, v_time = 100, v_value = 97 :: real, v_value_type_id = 1\<rparr>]\<rparr>
      1 (Some ''T'') None))
     = [\<lparr>dt_id = 1, name = Some ''pump'', location = Some ''hall''\<rparr>] \<and>
   vals (fst (add_or_update_value_type
      \<lparr>value_types = [\<lparr>vt_id = 1, type_name = Some ''Temp'', type_unit = Some ''C''\<rparr>,
                      \<lparr>vt_id = 2, type_name = Some ''Hum'', type_unit = Some ''pct''\<rparr>],
       device_types = [\<lparr>dt_id = 1, name = Some ''pump'', location = Some ''hall''\<rparr>],
       vals = [\<lparr>v_id = 1, v_time = 100, v_value = 97 :: real, v_value_type_id = 1\<rparr>]\<rparr>
      1 (Some ''T'') None))
     = [\<lparr>v_id = 1, v_time = 100, v_value = 97, v_value_type_id = 1\<rparr>]"
  using upserts_are_frame_local [where k = 1 and n = "Some ''T''" and u = None and l = None and d =
      "\<lparr>value_types = [\<lparr>vt_id = 1, type_name = Some ''Temp'', type_unit = Some ''C''\<rparr>,
                      \<lparr>vt_id = 2, type_name = Some ''Hum'', type_unit = Some ''pct''\<rparr>],
       device_types = [\<lparr>dt_id = 1, name = Some ''pump'', location = Some ''hall''\<rparr>],
       vals = [\<lparr>v_id = 1, v_time = 100, v_value = 97 :: real, v_value_type_id = 1\<rparr>]\<rparr>"]
  by (simp add: value_types_after_upsert merged_value_type_def spec_field_def)

subsection \<open>Names, units and locations are never empty\<close>









subsection \<open>Listing the Values\<close>

lemma filter_key_single:
  "distinct (map f xs) \<Longrightarrow> k \<in> set (map f xs) \<Longrightarrow> length (filter (\<lambda>t. f t = k) xs) = 1"
proof (induction xs)
  case Nil
  then show ?case by simp
next
  case (Cons x xs)
  show ?case
  proof (cases "f x = k")
    case True
    with Cons.prems have "k \<notin> set (map f xs)" by auto
    then have "filter (\<lambda>t. f t = k) xs = []" by (simp add: filter_empty_not_stored)
    with True show ?thesis by simp
  next
    case False
    with Cons show ?thesis by auto
  qed
qed

lemma join_value_type_filter:
  assumes "distinct (map vt_id (value_types d))"
    and "list_all (\<lambda>v. v_value_type_id v \<in> set (map vt_id (value_types d))) rows"
  shows "join_value_type d k rows = filter (\<lambda>v. v_value_type_id v = k) rows"
  using assms(2)
proof (induction rows)
  case Nil
  then show ?case by (simp add: join_value_type_def)
next
  case (Cons v rows)
  then have IH: "join_value_type d k rows = filter (\<lambda>v. v_value_type_id v = k) rows"
    by simp
  have step: "join_value_type d k (v # rows) =
      map (\<lambda>t. v) (filter (\<lambda>t. vt_id t = v_value_type_id v \<and> vt_id t = k) (value_types d))
        @ join_value_type d k rows"
    by (simp add: join_value_type_def)
  show ?case
  proof (cases "v_value_type_id v = k")
    case True
    then have "filter (\<lambda>t. vt_id t = v_value_type_id v \<and> vt_id t = k) (value_types d)
        = filter (\<lambda>t. vt_id t = k) (value_types d)"
      by (auto intro: filter_cong)
    moreover have "length (filter (\<lambda>t. vt_id t = k) (value_types d)) = 1"
      using assms(1) Cons.prems True by (intro filter_key_single) simp_all
    ultimately obtain t where
      "filter (\<lambda>t. vt_id t = v_value_type_id v \<and> vt_id t = k) (value_types d) = [t]"
      by (auto simp: length_Suc_conv)
    with True show ?thesis by (simp add: step IH)
  next
    case False
    then have "filter (\<lambda>t. vt_id t = v_value_type_id v \<and> vt_id t = k) (value_types d) = []"
      by (auto simp: filter_empty_conv)
    with False show ?thesis by (simp add: step IH)
  qed
qed

lemma get_values_sorted_filter:
  assumes "keys_ok d"
  shows "get_values d value_type_id start end' =
     (d, Inr (sort_key v_time (filter (spec_selected value_type_id start end') (vals d))))"
proof -
  have j: "join_value_type d k (vals d) = filter (\<lambda>v. v_value_type_id v = k) (vals d)" for k
    using assms by (intro join_value_type_filter) (simp_all add: keys_ok_def)
  have "filter (spec_selected value_type_id start end') (vals d) =
      (case end' of None \<Rightarrow> (\<lambda>x. x) | Some e \<Rightarrow> filter (\<lambda>v. v_time v \<le> e))
        ((case start of None \<Rightarrow> (\<lambda>x. x) | Some s \<Rightarrow> filter (\<lambda>v. s \<le> v_time v))
          ((case value_type_id of None \<Rightarrow> (\<lambda>x. x) | Some k \<Rightarrow> filter (\<lambda>v. v_value_type_id v = k))
             (vals d)))"
    by (auto simp: spec_selected_def split: option.splits intro: filter_cong)
  then show ?thesis
    by (simp add: get_values_def Let_def j split: option.splits)
qed

text \<open>The keys hold in every store that calls of the core build from the empty one.\<close>

lemma value_type_ids_after_upsert:
  "map vt_id (value_types (fst (add_or_update_value_type d k n u))) =
     (if k \<in> set (map vt_id (value_types d)) then map vt_id (value_types d)
      else map vt_id (value_types d) @ [k])"
proof -
  have "map vt_id (map (\<lambda>x. if vt_id x = k then obj else x) rows) = map vt_id rows"
    if "vt_id obj = k" for obj and rows :: "value_type list"
    using that by (induction rows) auto
  then show ?thesis
    by (simp add: value_types_after_upsert merged_value_type_sel del: set_map)
qed

lemma keys_ok_upsert_value_type:
  assumes "keys_ok d" shows "keys_ok (fst (add_or_update_value_type d k n u))"
  using assms
  by (auto simp add: keys_ok_def value_type_ids_after_upsert upsert_frame list_all_iff
      simp del: set_map)

lemma keys_ok_upsert_device:
  assumes "keys_ok d" shows "keys_ok (fst (add_or_update_device d k n l))"
  using assms by (simp add: keys_ok_def device_upsert_frame)

lemma keys_ok_add_value:
  assumes "keys_ok d" shows "keys_ok (fst (add_value ok d t k v))"
proof -
  let ?d1 = "fst (add_or_update_value_type d k None None)"
  have "keys_ok ?d1" using assms by (rule keys_ok_upsert_value_type)
  moreover have "k \<in> set (map vt_id (value_types ?d1))" by (rule stored_after_upsert)
  ultimately show ?thesis
    by (simp add: add_value_char Let_def keys_ok_def upsert_frame del: set_map)
qed

lemma keys_ok_apply_op: "keys_ok d \<Longrightarrow> keys_ok (apply_op ok d c)"
  by (cases c)
     (simp_all add: keys_ok_upsert_value_type keys_ok_upsert_device keys_ok_add_value
        get_value_types_def get_value_type_def get_values_def get_device_type_def Let_def
        split: sum.splits option.splits)

lemma keys_ok_run: "keys_ok d \<Longrightarrow> keys_ok (run ok d ops)"
  unfolding run_def
  by (induction ops arbitrary: d) (simp_all add: keys_ok_apply_op)

lemma keys_ok_reachable: "keys_ok (run ok empty_db ops)"
  by (rule keys_ok_run) (simp add: keys_ok_def empty_db_def)

text \<open>
  Claim C4. On a store whose keys hold, \<^verbatim>\<open>get_values\<close> returns without an exception,
  leaves the store as it was, and returns exactly the Values that pass all supplied
  filters (as a multiset: each as often as it is stored), in ascending order of time.
  Without a filter these are all Values; when no Value passes, the result is the empty
  list.
\<close>

theorem get_values_filtered_sorted:
  assumes "keys_ok d"
  shows "\<exists>rows. get_values d value_type_id start end' = (d, Inr rows) \<and>
     mset rows = mset (filter (spec_selected value_type_id start end') (vals d)) \<and>
     sorted (map v_time rows) \<and>
     (value_type_id = None \<and> start = None \<and> end' = None \<longrightarrow> mset rows = mset (vals d)) \<and>
     (filter (spec_selected value_type_id start end') (vals d) = [] \<longrightarrow> rows = [])"
proof -
  let ?rows = "sort_key v_time (filter (spec_selected value_type_id start end') (vals d))"
  have "get_values d value_type_id start end' = (d, Inr ?rows)"
    using assms by (rule get_values_sorted_filter)
  moreover have "mset ?rows = mset (filter (spec_selected value_type_id start end') (vals d))"
    by simp
  moreover have "sorted (map v_time ?rows)" by simp
  moreover have "mset ?rows = mset (vals d)"
    if "value_type_id = None \<and> start = None \<and> end' = None"
    using that by (simp add: spec_selected_def)
  moreover have "?rows = []" if "filter (spec_selected value_type_id start end') (vals d) = []"
    using that by simp
  ultimately show ?thesis by blast
qed

text \<open>
  An instance: the three measurements of the example in the specification, listed from
  time 150 on.
\<close>

theorem get_values_filtered_sorted_witness:
  "keys_ok
     \<lparr>value_types = [\<lparr>vt_id = 1, type_name = Some ''TYPE_1'', type_unit = Some ''UNIT_1''\<rparr>,
                     \<lparr>vt_id = 2, type_name = Some ''TYPE_2'', type_unit = Some ''UNIT_2''\<rparr>],
      device_types = [],
      vals = [\<lparr>v_id = 1, v_time = 100, v_value = 97 :: real, v_value_type_id = 1\<rparr>,
              \<lparr>v_id = 2, v_time = 200, v_value = 98.5, v_value_type_id = 1\<rparr>,
              \<lparr>v_id = 3, v_time = 150, v_value = 0.4, v_value_type_id = 2\<rparr>]\<rparr> \<and>
   (\<exists>rows. get_values
     \<lparr>value_types = [\<lparr>vt_id = 1, type_name = Some ''TYPE_1'', type_unit = Some ''UNIT_1''\<rparr>,
                     \<lparr>vt_id = 2, type_name = Some ''TYPE_2'', type_unit = Some ''UNIT_2''\<rparr>],
      device_types = [],
      vals = [\<lparr>v_id = 1, v_time = 100, v_value = 97 :: real, v_value_type_id = 1\<rparr>,
              \<lparr>v_id = 2, v_time = 200, v_value = 98.5, v_value_type_id = 1\<rparr>,
              \<lparr>v_id = 3, v_time = 150, v_value = 0.4, v_value_type_id = 2\<rparr>]\<rparr>
      None (Some 150) None =
     (\<lparr>value_types = [\<lparr>vt_id = 1, type_name = Some ''TYPE_1'', type_unit = Some ''UNIT_1''\<rparr>,
                     \<lparr>vt_id = 2, type_name = Some ''TYPE_2'', type_unit = Some ''UNIT_2''\<rparr>],
      device_types = [],
      vals = [\<lparr>v_id = 1, v_time = 100, v_value = 97 :: real, v_value_type_id = 1\<rparr>,
              \<lparr>v_id = 2, v_time = 200, v_value = 98.5, v_value_type_id = 1\<rparr>,
              \<lparr>v_id = 3, v_time = 150, v_value = 0.4, v_value_type_id = 2\<rparr>]\<rparr>, Inr rows) \<and>
     mset rows = {#\<lparr>v_id = 3, v_time = 150, v_value = 0.4, v_value_type_id = 2\<rparr>,
                  \<lparr>v_id = 2, v_time = 200, v_value = 98.5, v_value_type_id = 1\<rparr>#} \<and>
     sorted (map v_time rows))"
proof -
  let ?d = "\<lparr>value_types = [\<lparr>vt_id = 1, type_name = Some ''TYPE_1'', type_unit = Some ''UNIT_1''\<rparr>,
                     \<lparr>vt_id = 2, type_name = Some ''TYPE_2'', type_unit = Some ''UNIT_2''\<rparr>],
      device_types = [],
      vals = [\<lparr>v_id = 1, v_time = 100, v_value = 97 :: real, v_value_type_id = 1\<rparr>,
              \<lparr>v_id = 2, v_time = 200, v_value = 98.5, v_value_type_id = 1\<rparr>,
              \<lparr>v_id = 3, v_time = 150, v_value = 0.4, v_value_type_id = 2\<rparr>]\<rparr>"
  have keys: "keys_ok ?d" by (simp add: keys_ok_def)
  have sel: "filter (spec_selected None (Some 150) None) (vals ?d) =
      [\<lparr>v_id = 2, v_time = 200, v_value = 98.5, v_value_type_id = 1\<rparr>,
       \<lparr>v_id = 3, v_time = 150, v_value = 0.4, v_value_type_id = 2\<rparr>]"
    by (simp add: spec_selected_def)
  from get_values_filtered_sorted [OF keys, where value_type_id = None and start = "Some 150" and end' = None]
  obtain rows where "get_values ?d None (Some 150) None = (?d, Inr rows)"
    and "mset rows = mset (filter (spec_selected None (Some 150) None) (vals ?d))"
    and "sorted (map v_time rows)"
    by blast
  with keys sel show ?thesis by (simp only: mset.simps add_mset_commute) blast
qed

end
